theory Spec2Isabelle
  imports Main
begin

section \<open>Python values, exceptions and the program state\<close>

text \<open>
  The notebook \<^verbatim>\<open>Tips/2016-03-23-With-Context-Manager.ipynb\<close> explains the
  \<^verbatim>\<open>with\<close> statement on one shared dictionary
  \<^verbatim>\<open>_G = {"counter": 99, "user": "admin"}\<close>, a class \<^verbatim>\<open>Refs\<close> with
  \<^verbatim>\<open>__enter__\<close>/\<^verbatim>\<open>__exit__\<close>, and a generator \<^verbatim>\<open>ref\<close> wrapped by
  \<^verbatim>\<open>contextlib.contextmanager\<close>.

  Values are the Python values that occur in the cells: \<^verbatim>\<open>None\<close>, booleans,
  unbounded integers and strings. An exception is a value of \<open>exn\<close>; a computation
  returns its outcome together with the state it leaves behind, because what a Python
  statement has written stays written when it raises afterwards.
\<close>

datatype pyval = PNone | PBool bool | PInt int | PStr string

datatype exn = KeyError string | TypeError | RuntimeError string | NameError string | Exception string

type_synonym addr = nat

type_synonym dict = "string \<rightharpoonup> pyval"

text \<open>
  The state of a generator object made from \<^verbatim>\<open>ref\<close>: not yet started, suspended at its
  single \<^verbatim>\<open>yield\<close> (holding its local variable \<^verbatim>\<open>counter\<close>), or finished.
\<close>

datatype gen = NotStarted | AtYield pyval | Finished

text \<open>
  The store. Dictionaries and generator objects are mutable and reached through
  references, so they live in heaps indexed by addresses; \<open>G_global\<close> is the binding of
  the module-level name \<^verbatim>\<open>_G\<close>. \<open>gen_alloc\<close> is the next free generator address.
\<close>

record pystate =
  G_global :: addr
  dicts :: "addr \<Rightarrow> dict"
  gens :: "addr \<Rightarrow> gen"
  gen_alloc :: addr

type_synonym 'a res = "(exn + 'a) \<times> pystate"

text \<open>Truth value testing, as the \<^verbatim>\<open>with\<close> statement applies it to what \<^verbatim>\<open>__exit__\<close> returns.\<close>

fun truthy :: "pyval \<Rightarrow> bool" where
  "truthy PNone = False"
| "truthy (PBool b) = b"
| "truthy (PInt i) = (i \<noteq> 0)"
| "truthy (PStr s) = (s \<noteq> [])"

text \<open>\<^verbatim>\<open>bool\<close> is a subclass of \<^verbatim>\<open>int\<close>: in arithmetic \<^verbatim>\<open>True\<close> is 1 and \<^verbatim>\<open>False\<close> is 0.\<close>

fun as_int :: "pyval \<Rightarrow> int option" where
  "as_int (PInt i) = Some i"
| "as_int (PBool b) = Some (if b then 1 else 0)"
| "as_int PNone = None"
| "as_int (PStr s) = None"

text \<open>
  The binary operators \<^verbatim>\<open>+\<close> and \<^verbatim>\<open>-\<close>: integer arithmetic on numbers, concatenation
  for \<^verbatim>\<open>str + str\<close>, \<^verbatim>\<open>TypeError\<close> for every other pair of operand types.
\<close>

definition py_add :: "pyval \<Rightarrow> pyval \<Rightarrow> exn + pyval" where
  "py_add a b =
     (case (as_int a, as_int b) of
        (Some x, Some y) \<Rightarrow> Inr (PInt (x + y))
      | _ \<Rightarrow> (case (a, b) of (PStr x, PStr y) \<Rightarrow> Inr (PStr (x @ y)) | _ \<Rightarrow> Inl TypeError))"

definition py_sub :: "pyval \<Rightarrow> pyval \<Rightarrow> exn + pyval" where
  "py_sub a b =
     (case (as_int a, as_int b) of
        (Some x, Some y) \<Rightarrow> Inr (PInt (x - y))
      | _ \<Rightarrow> Inl TypeError)"

text \<open>The comparison \<^verbatim>\<open>==\<close>: numbers compare by value (\<^verbatim>\<open>1 == True\<close>), the rest structurally.\<close>

definition py_eq :: "pyval \<Rightarrow> pyval \<Rightarrow> bool" where
  "py_eq a b =
     (case (as_int a, as_int b) of
        (Some x, Some y) \<Rightarrow> x = y
      | (None, None) \<Rightarrow> a = b
      | _ \<Rightarrow> False)"

definition is_number :: "pyval \<Rightarrow> bool" where
  "is_number v = (as_int v \<noteq> None)"

subsection \<open>Dictionary operations\<close>

text \<open>\<^verbatim>\<open>d[k]\<close>, \<^verbatim>\<open>d[k] = v\<close>, \<^verbatim>\<open>d[k] += n\<close> and \<^verbatim>\<open>d[k] -= n\<close> on the dictionary at address \<open>a\<close>.\<close>

definition dict_getitem :: "addr \<Rightarrow> string \<Rightarrow> pystate \<Rightarrow> pyval res" where
  "dict_getitem a k s =
     (case dicts s a k of None \<Rightarrow> (Inl (KeyError k), s) | Some v \<Rightarrow> (Inr v, s))"

definition dict_setitem :: "addr \<Rightarrow> string \<Rightarrow> pyval \<Rightarrow> pystate \<Rightarrow> unit res" where
  "dict_setitem a k v s = (Inr (), s\<lparr>dicts := (dicts s)(a := (dicts s a)(k \<mapsto> v))\<rparr>)"

definition dict_iadd :: "addr \<Rightarrow> string \<Rightarrow> pyval \<Rightarrow> pystate \<Rightarrow> unit res" where
  "dict_iadd a k n s =
     (case dict_getitem a k s of
        (Inl e, s1) \<Rightarrow> (Inl e, s1)
      | (Inr v, s1) \<Rightarrow>
          (case py_add v n of Inl e \<Rightarrow> (Inl e, s1) | Inr w \<Rightarrow> dict_setitem a k w s1))"

definition dict_isub :: "addr \<Rightarrow> string \<Rightarrow> pyval \<Rightarrow> pystate \<Rightarrow> unit res" where
  "dict_isub a k n s =
     (case dict_getitem a k s of
        (Inl e, s1) \<Rightarrow> (Inl e, s1)
      | (Inr v, s1) \<Rightarrow>
          (case py_sub v n of Inl e \<Rightarrow> (Inl e, s1) | Inr w \<Rightarrow> dict_setitem a k w s1))"

text \<open>The shared mapping as the name \<^verbatim>\<open>_G\<close> sees it, and its \<^verbatim>\<open>"counter"\<close> entry.\<close>

definition shared :: "pystate \<Rightarrow> dict" where
  "shared s = dicts s (G_global s)"

definition counter_of :: "pystate \<Rightarrow> pyval option" where
  "counter_of s = shared s ''counter''"

text \<open>The state right after \<^verbatim>\<open>_G = {"counter": 99, "user": "admin"}\<close>.\<close>

definition cell_state :: pystate where
  "cell_state =
     \<lparr>G_global = 0,
      dicts = (\<lambda>_. Map.empty)(0 := [''counter'' \<mapsto> PInt 99, ''user'' \<mapsto> PStr ''admin'']),
      gens = (\<lambda>_. Finished),
      gen_alloc = 0\<rparr>"

section \<open>The class Refs\<close>

text \<open>
  \<^verbatim>\<open>
  class Refs():
      def __init__(self, name = None):
          self.name = name
          self._G = _G
          self.init = self._G['counter']
      def __enter__(self):
          return self
      def __exit__(self, *args):
          self._G["counter"] = self.init
          return False
      def acc(self, n = 1):
          self._G["counter"] += n
      def dec(self, n = 1):
          self._G["counter"] -= n
  \<close>
  A handle keeps a reference to the dictionary (\<open>self_G\<close>), never a copy of it. No
  method assigns to a field of the handle after \<^verbatim>\<open>__init__\<close>, so a handle is a value.
  \<^verbatim>\<open>__str__\<close> only formats the counter for printing and is left out.
\<close>

record Refs =
  self_name :: pyval
  self_G :: addr
  self_init :: pyval

definition Refs_init :: "pyval \<Rightarrow> pystate \<Rightarrow> Refs res" where
  "Refs_init nm s =
     (case dict_getitem (G_global s) ''counter'' s of
        (Inl e, s1) \<Rightarrow> (Inl e, s1)
      | (Inr c, s1) \<Rightarrow> (Inr \<lparr>self_name = nm, self_G = G_global s, self_init = c\<rparr>, s1))"

definition Refs_enter :: "Refs \<Rightarrow> pystate \<Rightarrow> Refs res" where
  "Refs_enter r s = (Inr r, s)"

text \<open>\<^verbatim>\<open>*args\<close> takes any argument list and the body never reads it.\<close>

definition Refs_exit :: "Refs \<Rightarrow> 'a \<Rightarrow> pystate \<Rightarrow> pyval res" where
  "Refs_exit r args s =
     (case dict_setitem (self_G r) ''counter'' (self_init r) s of
        (Inl e, s1) \<Rightarrow> (Inl e, s1)
      | (Inr _, s1) \<Rightarrow> (Inr (PBool False), s1))"

definition Refs_acc :: "Refs \<Rightarrow> pyval \<Rightarrow> pystate \<Rightarrow> unit res" where
  "Refs_acc r n s = dict_iadd (self_G r) ''counter'' n s"

definition Refs_dec :: "Refs \<Rightarrow> pyval \<Rightarrow> pystate \<Rightarrow> unit res" where
  "Refs_dec r n s = dict_isub (self_G r) ''counter'' n s"

section \<open>The with statement and try/finally\<close>

text \<open>
  The notebook lists the steps of \<^verbatim>\<open>with EXPR as VAR: BLOCK\<close>: evaluate \<^verbatim>\<open>EXPR\<close> to
  get the context manager; call \<^verbatim>\<open>__enter__\<close>, whose result is bound to \<^verbatim>\<open>VAR\<close>; run
  the block; call \<^verbatim>\<open>__exit__\<close>, with the exception's \<^verbatim>\<open>type, value, traceback\<close> when
  the block raised and with \<^verbatim>\<open>None\<close> otherwise; when the block raised, a false result of
  \<^verbatim>\<open>__exit__\<close> re-raises the exception and a true one drops it. An exception of
  \<^verbatim>\<open>EXPR\<close> or \<^verbatim>\<open>__enter__\<close> leaves the statement before any \<^verbatim>\<open>__exit__\<close>, and an
  exception raised by \<^verbatim>\<open>__exit__\<close> itself replaces the one in flight.
  The three exception arguments are one \<open>exn option\<close>.
\<close>

definition with_stmt ::
  "(pystate \<Rightarrow> 'm res) \<Rightarrow> ('m \<Rightarrow> pystate \<Rightarrow> 'v res) \<Rightarrow>
   ('m \<Rightarrow> exn option \<Rightarrow> pystate \<Rightarrow> pyval res) \<Rightarrow> ('v \<Rightarrow> pystate \<Rightarrow> unit res) \<Rightarrow>
   pystate \<Rightarrow> unit res" where
  "with_stmt expr enter exit body s =
     (case expr s of
        (Inl e, s1) \<Rightarrow> (Inl e, s1)
      | (Inr mgr, s1) \<Rightarrow>
          (case enter mgr s1 of
             (Inl e, s2) \<Rightarrow> (Inl e, s2)
           | (Inr v, s2) \<Rightarrow>
               (case body v s2 of
                  (Inl e, s3) \<Rightarrow>
                    (case exit mgr (Some e) s3 of
                       (Inl e', s4) \<Rightarrow> (Inl e', s4)
                     | (Inr b, s4) \<Rightarrow> if truthy b then (Inr (), s4) else (Inl e, s4))
                | (Inr _, s3) \<Rightarrow>
                    (case exit mgr None s3 of
                       (Inl e', s4) \<Rightarrow> (Inl e', s4)
                     | (Inr _, s4) \<Rightarrow> (Inr (), s4)))))"



text \<open>\<^verbatim>\<open>with Refs(n1) as r1, Refs(n2) as r2, ...: BLOCK\<close> is the nesting of one
  \<^verbatim>\<open>with\<close> statement per item, the block innermost.\<close>

fun with_Refs :: "pyval list \<Rightarrow> (Refs list \<Rightarrow> pystate \<Rightarrow> unit res) \<Rightarrow> pystate \<Rightarrow> unit res" where
  "with_Refs [] body s = body [] s"
| "with_Refs (nm # nms) body s =
     with_stmt (Refs_init nm) Refs_enter Refs_exit
       (\<lambda>r. with_Refs nms (\<lambda>rs. body (r # rs))) s"

section \<open>The generator ref under contextlib.contextmanager\<close>

text \<open>
  \<^verbatim>\<open>
  @cm
  def ref():
      counter = _G["counter"]
      yield _G
      _G["counter"] = counter
  \<close>
  Calling \<^verbatim>\<open>ref()\<close> makes a generator object and runs none of its body. \<open>ref_next\<close> is
  \<^verbatim>\<open>next(gen)\<close> and \<open>ref_throw\<close> is \<^verbatim>\<open>gen.throw(e)\<close>: the latter raises \<open>e\<close> at the
  point where the generator is suspended, and since no \<^verbatim>\<open>try\<close> surrounds the
  \<^verbatim>\<open>yield\<close> the exception leaves the generator at once.
\<close>

datatype gen_result = Yielded addr | StopIteration | Raised exn

definition ref_call :: "pystate \<Rightarrow> addr res" where
  "ref_call s =
     (Inr (gen_alloc s), s\<lparr>gens := (gens s)(gen_alloc s := NotStarted), gen_alloc := Suc (gen_alloc s)\<rparr>)"

definition ref_next :: "addr \<Rightarrow> pystate \<Rightarrow> gen_result \<times> pystate" where
  "ref_next g s =
     (case gens s g of
        NotStarted \<Rightarrow>
          (case dict_getitem (G_global s) ''counter'' s of
             (Inl e, s1) \<Rightarrow> (Raised e, s1\<lparr>gens := (gens s1)(g := Finished)\<rparr>)
           | (Inr c, s1) \<Rightarrow> (Yielded (G_global s1), s1\<lparr>gens := (gens s1)(g := AtYield c)\<rparr>))
      | AtYield c \<Rightarrow>
          (case dict_setitem (G_global s) ''counter'' c s of
             (Inl e, s1) \<Rightarrow> (Raised e, s1\<lparr>gens := (gens s1)(g := Finished)\<rparr>)
           | (Inr _, s1) \<Rightarrow> (StopIteration, s1\<lparr>gens := (gens s1)(g := Finished)\<rparr>))
      | Finished \<Rightarrow> (StopIteration, s))"

definition ref_throw :: "exn \<Rightarrow> addr \<Rightarrow> pystate \<Rightarrow> gen_result \<times> pystate" where
  "ref_throw e g s =
     (case gens s g of
        NotStarted \<Rightarrow> (Raised e, s\<lparr>gens := (gens s)(g := Finished)\<rparr>)
      | AtYield c \<Rightarrow> (Raised e, s\<lparr>gens := (gens s)(g := Finished)\<rparr>)
      | Finished \<Rightarrow> (Raised e, s))"

text \<open>
  The two methods of the object \<^verbatim>\<open>contextmanager\<close> returns (Python 3.5, the notebook's
  kernel):
  \<^verbatim>\<open>
  def __enter__(self):
      try:
          return next(self.gen)
      except StopIteration:
          raise RuntimeError("generator didn't yield") from None

  def __exit__(self, type, value, traceback):
      if type is None:
          try:
              next(self.gen)
          except StopIteration:
              return
          else:
              raise RuntimeError("generator didn't stop")
      else:
          try:
              self.gen.throw(type, value, traceback)
              raise RuntimeError("generator didn't stop after throw()")
          except StopIteration as exc:
              return exc is not value
          except RuntimeError as exc:
              if exc.__cause__ is value:
                  return False
              raise
          except:
              if sys.exc_info()[1] is not value:
                  raise
  \<close>
  \<^verbatim>\<open>exc.__cause__ is value\<close> holds only for a \<^verbatim>\<open>StopIteration\<close> that the interpreter
  wrapped into a \<^verbatim>\<open>RuntimeError\<close>; no exception of \<open>exn\<close> is one, so a \<^verbatim>\<open>RuntimeError\<close>
  that comes back from \<^verbatim>\<open>throw\<close> is raised again. A method that ends without
  \<^verbatim>\<open>return\<close> returns \<^verbatim>\<open>None\<close>. An exception that comes back is the one thrown when it
  is equal to it.
\<close>

definition cm_enter :: "addr \<Rightarrow> pystate \<Rightarrow> addr res" where
  "cm_enter g s =
     (case ref_next g s of
        (Yielded v, s1) \<Rightarrow> (Inr v, s1)
      | (StopIteration, s1) \<Rightarrow> (Inl (RuntimeError ''generator didn't yield''), s1)
      | (Raised e, s1) \<Rightarrow> (Inl e, s1))"

definition cm_exit :: "addr \<Rightarrow> exn option \<Rightarrow> pystate \<Rightarrow> pyval res" where
  "cm_exit g exc s =
     (case exc of
        None \<Rightarrow>
          (case ref_next g s of
             (StopIteration, s1) \<Rightarrow> (Inr PNone, s1)
           | (Yielded _, s1) \<Rightarrow> (Inl (RuntimeError ''generator didn't stop''), s1)
           | (Raised e, s1) \<Rightarrow> (Inl e, s1))
      | Some value \<Rightarrow>
          (case ref_throw value g s of
             (Yielded _, s1) \<Rightarrow> (Inl (RuntimeError ''generator didn't stop after throw()''), s1)
           | (StopIteration, s1) \<Rightarrow> (Inr (PBool True), s1)
           | (Raised e, s1) \<Rightarrow>
               (case e of
                  RuntimeError msg \<Rightarrow> (Inl e, s1)
                | _ \<Rightarrow> if e = value then (Inr PNone, s1) else (Inl e, s1))))"

section \<open>Blocks: sequences of statements on the counter\<close>

text \<open>
  The statements a block applies to the counter: \<^verbatim>\<open>+= n\<close>, \<^verbatim>\<open>-= n\<close>, a plain assignment,
  and \<^verbatim>\<open>raise\<close>. Through a \<^verbatim>\<open>Refs\<close> handle \<open>r\<close> they are \<^verbatim>\<open>r.acc(n)\<close>, \<^verbatim>\<open>r.dec(n)\<close>
  and \<^verbatim>\<open>r._G["counter"] = v\<close>; through the mapping \<open>m\<close> that \<^verbatim>\<open>ref\<close> yields they are
  \<^verbatim>\<open>m["counter"] += n\<close>, \<^verbatim>\<open>m["counter"] -= n\<close> and \<^verbatim>\<open>m["counter"] = v\<close>.
\<close>

datatype stmt = Add pyval | Sub pyval | Store pyval | Raise exn

fun exec_Refs :: "Refs \<Rightarrow> stmt \<Rightarrow> pystate \<Rightarrow> unit res" where
  "exec_Refs r (Add n) s = Refs_acc r n s"
| "exec_Refs r (Sub n) s = Refs_dec r n s"
| "exec_Refs r (Store v) s = dict_setitem (self_G r) ''counter'' v s"
| "exec_Refs r (Raise e) s = (Inl e, s)"

fun exec_dict :: "addr \<Rightarrow> stmt \<Rightarrow> pystate \<Rightarrow> unit res" where
  "exec_dict m (Add n) s = dict_iadd m ''counter'' n s"
| "exec_dict m (Sub n) s = dict_isub m ''counter'' n s"
| "exec_dict m (Store v) s = dict_setitem m ''counter'' v s"
| "exec_dict m (Raise e) s = (Inl e, s)"

text \<open>Statements run in order; the first exception ends the block.\<close>

fun block :: "(stmt \<Rightarrow> pystate \<Rightarrow> unit res) \<Rightarrow> stmt list \<Rightarrow> pystate \<Rightarrow> unit res" where
  "block ex [] s = (Inr (), s)"
| "block ex (x # xs) s =
     (case ex x s of (Inl e, s1) \<Rightarrow> (Inl e, s1) | (Inr _, s1) \<Rightarrow> block ex xs s1)"

text \<open>The two scoped forms of the notebook around a block:
  \<^verbatim>\<open>with Refs(nm) as r: BLOCK\<close> and \<^verbatim>\<open>with ref() as m: BLOCK\<close>.\<close>

definition with_Refs_block :: "pyval \<Rightarrow> stmt list \<Rightarrow> pystate \<Rightarrow> unit res" where
  "with_Refs_block nm xs s =
     with_stmt (Refs_init nm) Refs_enter Refs_exit (\<lambda>r. block (exec_Refs r) xs) s"

definition with_ref_block :: "stmt list \<Rightarrow> pystate \<Rightarrow> unit res" where
  "with_ref_block xs s =
     with_stmt ref_call cm_enter cm_exit (\<lambda>m. block (exec_dict m) xs) s"

text \<open>An expression that only reads a variable already bound to \<open>x\<close>, and the empty
  block \<^verbatim>\<open>pass\<close>.\<close>

definition evaluated :: "'a \<Rightarrow> pystate \<Rightarrow> 'a res" where
  "evaluated x s = (Inr x, s)"

definition pass :: "'v \<Rightarrow> pystate \<Rightarrow> unit res" where
  "pass v s = (Inr (), s)"





text \<open>The handle \<^verbatim>\<open>Refs("ref1")\<close> evaluates to in \<open>cell_state\<close>.\<close>

definition ref1 :: Refs where
  "ref1 = \<lparr>self_name = PStr ''ref1'', self_G = 0, self_init = PInt 99\<rparr>"

section \<open>The two demonstration cells\<close>

text \<open>
  \<^verbatim>\<open>
  with Refs("ref1") as ref1, Refs("ref2") as ref2:
      for _ in range(3):
          ref1.dec()
          print(ref1)
          ref2.acc(2)
          print(ref2)
  \<close>
  and the same loop on the mappings \<^verbatim>\<open>r1\<close>, \<^verbatim>\<open>r2\<close> of
  \<^verbatim>\<open>with ref() as r1, ref() as r2\<close>. The \<^verbatim>\<open>print\<close> calls only read the state and are
  left out.
\<close>

text \<open>\<^verbatim>\<open>for _ in range(n): B\<close>.\<close>

fun for_range :: "nat \<Rightarrow> (pystate \<Rightarrow> unit res) \<Rightarrow> pystate \<Rightarrow> unit res" where
  "for_range 0 b s = (Inr (), s)"
| "for_range (Suc n) b s =
     (case b s of (Inl e, s1) \<Rightarrow> (Inl e, s1) | (Inr _, s1) \<Rightarrow> for_range n b s1)"

text \<open>\<^verbatim>\<open>P; Q\<close>: \<open>Q\<close> runs when \<open>P\<close> did not raise.\<close>

definition then_do :: "(pystate \<Rightarrow> unit res) \<Rightarrow> (pystate \<Rightarrow> unit res) \<Rightarrow> pystate \<Rightarrow> unit res" where
  "then_do p q s = (case p s of (Inl e, s1) \<Rightarrow> (Inl e, s1) | (Inr _, s1) \<Rightarrow> q s1)"

definition cell3_block :: "Refs \<Rightarrow> Refs \<Rightarrow> pystate \<Rightarrow> unit res" where
  "cell3_block r1 r2 = for_range 3 (then_do (Refs_dec r1 (PInt 1)) (Refs_acc r2 (PInt 2)))"

definition cell3 :: "pystate \<Rightarrow> unit res" where
  "cell3 =
     with_stmt (Refs_init (PStr ''ref1'')) Refs_enter Refs_exit (\<lambda>r1.
       with_stmt (Refs_init (PStr ''ref2'')) Refs_enter Refs_exit (\<lambda>r2.
         cell3_block r1 r2))"

definition cell4_block :: "addr \<Rightarrow> addr \<Rightarrow> pystate \<Rightarrow> unit res" where
  "cell4_block r1 r2 =
     for_range 3 (then_do (dict_isub r1 ''counter'' (PInt 1)) (dict_iadd r2 ''counter'' (PInt 2)))"

definition cell4 :: "pystate \<Rightarrow> unit res" where
  "cell4 =
     with_stmt ref_call cm_enter cm_exit (\<lambda>r1.
       with_stmt ref_call cm_enter cm_exit (\<lambda>r2.
         cell4_block r1 r2))"

section \<open>Predicates of the properties\<close>

text \<open>The counter entry of the mapping a handle refers to.\<close>

definition counter_at :: "Refs \<Rightarrow> pystate \<Rightarrow> pyval option" where
  "counter_at r s = dicts s (self_G r) ''counter''"

text \<open>The shared mapping has exactly the keys \<^verbatim>\<open>"user"\<close> and \<^verbatim>\<open>"counter"\<close> and its counter
  is a number; every generator suspended at its \<^verbatim>\<open>yield\<close> remembers a number.\<close>

definition G_inv :: "pystate \<Rightarrow> bool" where
  "G_inv s =
     (dom (shared s) = {''user'', ''counter''} \<and>
      (case counter_of s of None \<Rightarrow> False | Some v \<Rightarrow> is_number v) \<and>
      (\<forall>g c. gens s g = AtYield c \<longrightarrow> is_number c))"

text \<open>A handle of the shared mapping that remembers a number.\<close>

definition handle_ok :: "Refs \<Rightarrow> pystate \<Rightarrow> bool" where
  "handle_ok r s = (self_G r = G_global s \<and> is_number (self_init r))"

text \<open>From \<open>s\<close> to \<open>s'\<close> no name was rebound and no dictionary entry other than
  \<^verbatim>\<open>"counter"\<close> was written.\<close>

definition only_counter_written :: "pystate \<Rightarrow> pystate \<Rightarrow> bool" where
  "only_counter_written s s' =
     (G_global s' = G_global s \<and>
      (\<forall>a. dicts s' a = (dicts s a)(''counter'' := dicts s' a ''counter'')))"

text \<open>Two counter entries are equal under \<^verbatim>\<open>==\<close>, or both absent.\<close>

definition same_counter :: "pyval option \<Rightarrow> pyval option \<Rightarrow> bool" where
  "same_counter x y =
     (case (x, y) of
        (None, None) \<Rightarrow> True
      | (Some v, Some w) \<Rightarrow> py_eq v w
      | _ \<Rightarrow> False)"

section \<open>Basic facts\<close>

lemma Refs_init_result:
  "Refs_init nm s =
     (case counter_of s of
        None \<Rightarrow> (Inl (KeyError ''counter''), s)
      | Some c \<Rightarrow> (Inr \<lparr>self_name = nm, self_G = G_global s, self_init = c\<rparr>, s))"
  by (simp add: Refs_init_def dict_getitem_def counter_of_def shared_def split: option.splits)

lemma Refs_init_Inr:
  "Refs_init nm s = (Inr r, s1) \<Longrightarrow>
     s1 = s \<and> self_G r = G_global s \<and> counter_of s = Some (self_init r) \<and> self_name r = nm"
  by (auto simp: Refs_init_result split: option.splits)

lemma Refs_exit_result:
  "Refs_exit r args s =
     (Inr (PBool False), s\<lparr>dicts := (dicts s)(self_G r := (dicts s (self_G r))(''counter'' \<mapsto> self_init r))\<rparr>)"
  by (simp add: Refs_exit_def dict_setitem_def)

lemma Refs_exit_counter:
  "counter_at r (snd (Refs_exit r args s)) = Some (self_init r)"
  by (simp add: Refs_exit_result counter_at_def)

lemma with_stmt_Refs:
  assumes "expr s = (Inr r, s1)"
  shows "with_stmt expr Refs_enter Refs_exit body s =
           (fst (body r s1), snd (Refs_exit r (None :: exn option) (snd (body r s1))))"
  using assms
  by (cases "body r s1") (auto simp: with_stmt_def Refs_enter_def Refs_exit_result split: sum.splits)

lemma with_stmt_Refs_outcome:
  "expr s = (Inr r, s1) \<Longrightarrow> fst (with_stmt expr Refs_enter Refs_exit body s) = fst (body r s1)"
  by (simp add: with_stmt_Refs)

lemma Refs_init_cell_state: "Refs_init (PStr ''ref1'') cell_state = (Inr ref1, cell_state)"
  by (simp add: Refs_init_result counter_of_def shared_def cell_state_def ref1_def)

lemma counter_at_ref1: "counter_at ref1 cell_state = Some (PInt 99)"
  by (simp add: counter_at_def ref1_def cell_state_def)

lemma block_dec_raise:
  "block (exec_Refs ref1) [Sub (PInt 1), Raise (Exception ''boom'')] cell_state =
     (Inl (Exception ''boom''), snd (dict_setitem 0 ''counter'' (PInt 98) cell_state))"
  by (simp add: Refs_dec_def dict_isub_def dict_getitem_def dict_setitem_def py_sub_def
      ref1_def cell_state_def)

text \<open>The cells run as the notebook records them: the counter is 102 when the block of the
  first cell ends, and both cells print \<^verbatim>\<open>{'user': 'admin', 'counter': 99}\<close> at the end.\<close>

lemma cell3_block_run:
  "fst (cell3_block ref1 (ref1\<lparr>self_name := PStr ''ref2''\<rparr>) cell_state) = Inr () \<and>
   counter_of (snd (cell3_block ref1 (ref1\<lparr>self_name := PStr ''ref2''\<rparr>) cell_state)) = Some (PInt 102)"
  by (simp add: cell3_block_def eval_nat_numeral then_do_def Refs_dec_def Refs_acc_def
      dict_isub_def dict_iadd_def dict_getitem_def dict_setitem_def py_sub_def py_add_def
      ref1_def cell_state_def counter_of_def shared_def)

lemma cell3_run:
  "fst (cell3 cell_state) = Inr () \<and>
   shared (snd (cell3 cell_state)) = [''counter'' \<mapsto> PInt 99, ''user'' \<mapsto> PStr ''admin'']"
  by (simp add: cell3_def with_stmt_def cell3_block_def eval_nat_numeral then_do_def
      Refs_init_def Refs_enter_def Refs_exit_result Refs_dec_def Refs_acc_def
      dict_isub_def dict_iadd_def dict_getitem_def dict_setitem_def py_sub_def py_add_def
      cell_state_def shared_def fun_eq_iff)

lemma cell4_run:
  "fst (cell4 cell_state) = Inr () \<and>
   shared (snd (cell4 cell_state)) = [''counter'' \<mapsto> PInt 99, ''user'' \<mapsto> PStr ''admin'']"
  by (simp add: cell4_def with_stmt_def cell4_block_def eval_nat_numeral then_do_def
      ref_call_def cm_enter_def cm_exit_def ref_next_def
      dict_isub_def dict_iadd_def dict_getitem_def dict_setitem_def py_sub_def py_add_def
      cell_state_def shared_def fun_eq_iff)

section \<open>The release step of a Refs scope\<close>

text \<open>
  C2. For every run of a \<^verbatim>\<open>with\<close> scope of a \<^verbatim>\<open>Refs\<close> handle \<open>r\<close> (the
  expression of the statement evaluated to \<open>r\<close>), \<^verbatim>\<open>Refs.__exit__\<close> runs on both exits:
  when the block raises \<open>e\<close> in state \<open>s3\<close> the statement ends in the state
  \<^verbatim>\<open>__exit__\<close> makes of \<open>s3\<close> (and raises \<open>e\<close>), when the block completes in \<open>s3\<close> it
  ends in the state \<^verbatim>\<open>__exit__\<close> makes of \<open>s3\<close>; either way the counter of the handle's
  mapping holds the remembered initial value afterwards.
\<close>

theorem Refs_exit_runs_on_every_exit_path:
  assumes "expr s = (Inr r, s1)"
  shows "(\<forall>e s3. body r s1 = (Inl e, s3) \<longrightarrow>
            with_stmt expr Refs_enter Refs_exit body s = (Inl e, snd (Refs_exit r (Some e) s3))) \<and>
         (\<forall>s3. body r s1 = (Inr (), s3) \<longrightarrow>
            with_stmt expr Refs_enter Refs_exit body s = (Inr (), snd (Refs_exit r None s3))) \<and>
         counter_at r (snd (with_stmt expr Refs_enter Refs_exit body s)) = Some (self_init r)"
  using assms
  by (simp add: with_stmt_Refs Refs_exit_counter) (simp add: Refs_exit_result)

theorem Refs_exit_runs_on_every_exit_path_witness:
  "Refs_init (PStr ''ref1'') cell_state = (Inr ref1, cell_state) \<and>
   with_stmt (Refs_init (PStr ''ref1'')) Refs_enter Refs_exit
     (\<lambda>r. block (exec_Refs r) [Sub (PInt 1), Raise (Exception ''boom'')]) cell_state =
     (Inl (Exception ''boom''),
      snd (Refs_exit ref1 (Some (Exception ''boom''))
             (snd (dict_setitem 0 ''counter'' (PInt 98) cell_state)))) \<and>
   counter_at ref1
     (snd (with_stmt (Refs_init (PStr ''ref1'')) Refs_enter Refs_exit
        (\<lambda>r. block (exec_Refs r) [Sub (PInt 1), Raise (Exception ''boom'')]) cell_state)) =
     Some (PInt 99)"
proof -
  note h = Refs_init_cell_state
  note t = Refs_exit_runs_on_every_exit_path [where expr = "Refs_init (PStr ''ref1'')", OF h,
        of "\<lambda>r. block (exec_Refs r) [Sub (PInt 1), Raise (Exception ''boom'')]"]
  have "with_stmt (Refs_init (PStr ''ref1'')) Refs_enter Refs_exit
     (\<lambda>r. block (exec_Refs r) [Sub (PInt 1), Raise (Exception ''boom'')]) cell_state =
     (Inl (Exception ''boom''),
      snd (Refs_exit ref1 (Some (Exception ''boom''))
             (snd (dict_setitem 0 ''counter'' (PInt 98) cell_state))))"
    using t block_dec_raise by blast
  moreover have "counter_at ref1
     (snd (with_stmt (Refs_init (PStr ''ref1'')) Refs_enter Refs_exit
        (\<lambda>r. block (exec_Refs r) [Sub (PInt 1), Raise (Exception ''boom'')]) cell_state)) =
     Some (PInt 99)"
  proof -
    have "self_init ref1 = PInt 99" by (simp add: ref1_def)
    with t show ?thesis by metis
  qed
  ultimately show ?thesis
    using h by blast
qed

text \<open>
  C3. When the block of a \<^verbatim>\<open>with\<close> statement raises \<open>e\<close> and \<^verbatim>\<open>__exit__\<close> returns
  \<open>b\<close>, the statement completes normally if \<open>b\<close> is true and raises the same \<open>e\<close> if
  \<open>b\<close> is false, for every context manager.
\<close>

theorem exit_result_decides_exception:
  assumes "expr s = (Inr m, s1)" and "enter m s1 = (Inr v, s2)"
    and "body v s2 = (Inl e, s3)" and "exit m (Some e) s3 = (Inr b, s4)"
  shows "with_stmt expr enter exit body s = (if truthy b then (Inr (), s4) else (Inl e, s4))"
  using assms by (simp add: with_stmt_def)

theorem exit_result_decides_exception_witness:
  "with_stmt (evaluated ref1) Refs_enter (\<lambda>m exc. evaluated (PBool True))
     (\<lambda>r. block (exec_Refs r) [Raise (Exception ''boom'')]) cell_state = (Inr (), cell_state) \<and>
   with_stmt (evaluated ref1) Refs_enter Refs_exit
     (\<lambda>r. block (exec_Refs r) [Raise (Exception ''boom'')]) cell_state =
     (Inl (Exception ''boom''), snd (Refs_exit ref1 () cell_state))"
proof -
  have e: "evaluated ref1 cell_state = (Inr ref1, cell_state)" by (simp add: evaluated_def)
  have n: "Refs_enter ref1 cell_state = (Inr ref1, cell_state)" by (simp add: Refs_enter_def)
  have b: "block (exec_Refs ref1) [Raise (Exception ''boom'')] cell_state =
             (Inl (Exception ''boom''), cell_state)" by simp
  have x1: "evaluated (PBool True) cell_state = (Inr (PBool True), cell_state)"
    by (simp add: evaluated_def)
  have x2: "Refs_exit ref1 (Some (Exception ''boom'')) cell_state =
              (Inr (PBool False), snd (Refs_exit ref1 () cell_state))"
    by (simp add: Refs_exit_result)
  show ?thesis
    using exit_result_decides_exception [where expr = "evaluated ref1" and enter = Refs_enter
          and exit = "\<lambda>m exc. evaluated (PBool True)" and s = cell_state and m = ref1
          and ?s1.0 = cell_state and v = ref1 and ?s2.0 = cell_state
          and body = "\<lambda>r. block (exec_Refs r) [Raise (Exception ''boom'')]"
          and e = "Exception ''boom''" and ?s3.0 = cell_state and b = "PBool True"
          and ?s4.0 = cell_state]
      exit_result_decides_exception [where expr = "evaluated ref1" and enter = Refs_enter
          and exit = Refs_exit and s = cell_state and m = ref1
          and ?s1.0 = cell_state and v = ref1 and ?s2.0 = cell_state
          and body = "\<lambda>r. block (exec_Refs r) [Raise (Exception ''boom'')]"
          and e = "Exception ''boom''" and ?s3.0 = cell_state and b = "PBool False"
          and ?s4.0 = "snd (Refs_exit ref1 () cell_state)"]
      e n x1 x2
    by simp
qed

text \<open>The outcome of a \<^verbatim>\<open>with\<close> statement over \<^verbatim>\<open>Refs\<close> items is the outcome of its block.\<close>

lemma with_Refs_outcome:
  "counter_of s = Some c \<Longrightarrow>
   fst (with_Refs nms body s) =
   fst (body (map (\<lambda>nm. \<lparr>self_name = nm, self_G = G_global s, self_init = c\<rparr>) nms) s)"
proof (induction nms arbitrary: body)
  case Nil
  then show ?case by simp
next
  case (Cons nm nms)
  have init: "Refs_init nm s = (Inr \<lparr>self_name = nm, self_G = G_global s, self_init = c\<rparr>, s)"
    using Cons.prems by (simp add: Refs_init_result)
  show ?case
    using Cons.IH [OF Cons.prems]
    by (simp add: with_stmt_Refs_outcome [where expr = "Refs_init nm", OF init])
qed

text \<open>
  C9. \<^verbatim>\<open>Refs.__exit__\<close> returns \<^verbatim>\<open>False\<close> for every argument list, and an exception
  \<open>e\<close> raised by the block of \<^verbatim>\<open>with Refs(n1) as r1, ..., Refs(nk) as rk\<close> leaves the
  statement as \<open>e\<close>.
\<close>

theorem Refs_exit_never_suppresses:
  "fst (Refs_exit r args s) = Inr (PBool False) \<and>
   (counter_of s = Some c \<longrightarrow>
    fst (body (map (\<lambda>nm. \<lparr>self_name = nm, self_G = G_global s, self_init = c\<rparr>) nms) s) = Inl e \<longrightarrow>
    fst (with_Refs nms body s) = Inl e)"
  by (simp add: Refs_exit_result with_Refs_outcome)

theorem Refs_exit_never_suppresses_witness:
  "counter_of cell_state = Some (PInt 99) \<and>
   fst (Refs_exit ref1 (Some (Exception ''boom'')) cell_state) = Inr (PBool False) \<and>
   fst (with_Refs [PStr ''ref1'', PStr ''ref2'']
          (\<lambda>rs. block (exec_Refs (last rs)) [Sub (PInt 1), Raise (Exception ''boom'')])
          cell_state) = Inl (Exception ''boom'')"
proof -
  have c: "counter_of cell_state = Some (PInt 99)"
    by (simp add: counter_of_def shared_def cell_state_def)
  have b: "fst (block (exec_Refs \<lparr>self_name = PStr ''ref2'', self_G = G_global cell_state, self_init = PInt 99\<rparr>)
             [Sub (PInt 1), Raise (Exception ''boom'')] cell_state) = Inl (Exception ''boom'')"
    by (simp add: Refs_dec_def dict_isub_def dict_getitem_def dict_setitem_def py_sub_def
        cell_state_def)
  show ?thesis
    using c b
      Refs_exit_never_suppresses [where s = cell_state and c = "PInt 99" and r = ref1
        and args = "Some (Exception ''boom'')"
        and nms = "[PStr ''ref1'', PStr ''ref2'']" and e = "Exception ''boom''"
        and body = "\<lambda>rs. block (exec_Refs (last rs)) [Sub (PInt 1), Raise (Exception ''boom'')]"]
    by simp
qed

section \<open>Which value a handle restores\<close>

text \<open>
  C4. As stated the claim fails: a handle restores the counter value of the moment
  \<^verbatim>\<open>__init__\<close> ran, not of the moment \<^verbatim>\<open>__enter__\<close> ran. Amended: for every handle
  \<open>r\<close> made by \<^verbatim>\<open>Refs.__init__\<close> in state \<open>s0\<close>, after any later scope
  \<^verbatim>\<open>with r: BLOCK\<close> the counter of its mapping is the counter of \<open>s0\<close>; this is the value at
  \<^verbatim>\<open>__enter__\<close> whenever the counter then equals the one of \<open>s0\<close>.
\<close>

theorem Refs_restores_value_at_construction:
  assumes "Refs_init nm s0 = (Inr r, s0')"
  shows "counter_at r (snd (with_stmt (evaluated r) Refs_enter Refs_exit body s)) = counter_of s0 \<and>
         (counter_at r s = counter_of s0 \<longrightarrow>
          counter_at r (snd (with_stmt (evaluated r) Refs_enter Refs_exit body s)) = counter_at r s)"
proof -
  have "evaluated r s = (Inr r, s)" by (simp add: evaluated_def)
  then have "counter_at r (snd (with_stmt (evaluated r) Refs_enter Refs_exit body s)) = Some (self_init r)"
    by (simp add: with_stmt_Refs Refs_exit_counter)
  moreover have "counter_of s0 = Some (self_init r)"
    using Refs_init_Inr [OF assms] by simp
  ultimately show ?thesis by simp
qed

theorem Refs_restores_value_at_construction_witness:
  "Refs_init (PStr ''ref1'') cell_state = (Inr ref1, cell_state) \<and>
   counter_at ref1 (snd (Refs_acc ref1 (PInt 1) cell_state)) = Some (PInt 100) \<and>
   counter_at ref1 (snd (with_stmt (evaluated ref1) Refs_enter Refs_exit pass
                      (snd (Refs_acc ref1 (PInt 1) cell_state)))) = counter_of cell_state"
proof -
  note h = Refs_init_cell_state
  have "counter_at ref1 (snd (Refs_acc ref1 (PInt 1) cell_state)) = Some (PInt 100)"
    by (simp add: Refs_acc_def dict_iadd_def dict_getitem_def dict_setitem_def py_add_def
        counter_at_def ref1_def cell_state_def)
  then show ?thesis
    using h Refs_restores_value_at_construction [OF h, of pass "snd (Refs_acc ref1 (PInt 1) cell_state)"]
    by simp
qed

text \<open>The handle is made at counter 99, \<^verbatim>\<open>acc(1)\<close> makes the counter 100, and the scope
  entered then leaves 99.\<close>

theorem Refs_restores_enter_value_counterexample:
  "Refs_init (PStr ''ref1'') cell_state = (Inr ref1, cell_state) \<and>
   counter_at ref1 (snd (Refs_acc ref1 (PInt 1) cell_state)) = Some (PInt 100) \<and>
   counter_at ref1 (snd (with_stmt (evaluated ref1) Refs_enter Refs_exit pass
                      (snd (Refs_acc ref1 (PInt 1) cell_state)))) = Some (PInt 99)"
  by (simp add: Refs_init_result counter_of_def shared_def cell_state_def ref1_def
      Refs_acc_def dict_iadd_def dict_getitem_def dict_setitem_def py_add_def counter_at_def
      with_stmt_def evaluated_def Refs_enter_def pass_def Refs_exit_result)

section \<open>The with statement and the try/finally cell\<close>





section \<open>The invariant of the shared mapping\<close>

lemma G_inv_cell_state: "G_inv cell_state"
  by (auto simp: G_inv_def cell_state_def shared_def counter_of_def is_number_def)

lemma py_add_number: "is_number v \<Longrightarrow> py_add v n = Inr w \<Longrightarrow> is_number w"
  by (cases v; cases n) (auto simp: is_number_def py_add_def)

lemma py_sub_number: "py_sub v n = Inr w \<Longrightarrow> is_number w"
  by (auto simp: is_number_def py_sub_def split: option.splits)

lemma G_inv_gens:
  "G_inv s \<Longrightarrow> (\<And>c. x = AtYield c \<Longrightarrow> is_number c) \<Longrightarrow> G_inv (s\<lparr>gens := (gens s)(g := x)\<rparr>)"
  by (simp add: G_inv_def shared_def counter_of_def)

lemma G_inv_setitem:
  assumes "G_inv s" and "is_number v"
  shows "G_inv (snd (dict_setitem (G_global s) ''counter'' v s))"
proof -
  have "''counter'' \<in> dom (shared s)"
    using assms(1) by (simp add: G_inv_def)
  then have "insert ''counter'' (dom (shared s)) = dom (shared s)"
    by (rule insert_absorb)
  then show ?thesis
    using assms by (simp add: G_inv_def dict_setitem_def shared_def counter_of_def)
qed

lemma G_inv_iadd:
  assumes "G_inv s"
  shows "G_inv (snd (dict_iadd (G_global s) ''counter'' n s))"
proof (cases "counter_of s")
  case None
  with assms show ?thesis by (simp add: G_inv_def)
next
  case (Some v)
  then have v: "dicts s (G_global s) ''counter'' = Some v" "is_number v"
    using assms by (simp_all add: G_inv_def counter_of_def shared_def)
  show ?thesis
  proof (cases "py_add v n")
    case (Inl e)
    with v assms show ?thesis by (simp add: dict_iadd_def dict_getitem_def)
  next
    case (Inr w)
    with v assms show ?thesis
      using G_inv_setitem [OF assms py_add_number [OF v(2) Inr]]
      by (simp add: dict_iadd_def dict_getitem_def)
  qed
qed

lemma G_inv_isub:
  assumes "G_inv s"
  shows "G_inv (snd (dict_isub (G_global s) ''counter'' n s))"
proof (cases "counter_of s")
  case None
  with assms show ?thesis by (simp add: G_inv_def)
next
  case (Some v)
  then have v: "dicts s (G_global s) ''counter'' = Some v"
    using assms by (simp_all add: G_inv_def counter_of_def shared_def)
  show ?thesis
  proof (cases "py_sub v n")
    case (Inl e)
    with v assms show ?thesis by (simp add: dict_isub_def dict_getitem_def)
  next
    case (Inr w)
    with v assms show ?thesis
      using G_inv_setitem [OF assms py_sub_number [OF Inr]]
      by (simp add: dict_isub_def dict_getitem_def)
  qed
qed

lemma G_inv_Refs_init:
  assumes "G_inv s"
  shows "\<exists>r. Refs_init nm s = (Inr r, s) \<and> handle_ok r s"
proof -
  obtain v where "counter_of s = Some v" "is_number v"
    using assms by (auto simp: G_inv_def split: option.splits)
  then show ?thesis
    by (simp add: Refs_init_result handle_ok_def)
qed

lemma G_inv_Refs_exit:
  assumes "G_inv s" and "handle_ok r s"
  shows "G_inv (snd (Refs_exit r args s))"
  using G_inv_setitem [OF assms(1), of "self_init r"] assms(2)
  by (simp add: Refs_exit_def handle_ok_def dict_setitem_def)

lemma G_inv_ref_call: "G_inv s \<Longrightarrow> G_inv (snd (ref_call s))"
  by (simp add: ref_call_def G_inv_def shared_def counter_of_def)

lemma G_inv_ref_next:
  assumes "G_inv s"
  shows "G_inv (snd (ref_next g s))"
proof (cases "gens s g")
  case NotStarted
  obtain v where "dicts s (G_global s) ''counter'' = Some v" "is_number v"
    using assms by (auto simp: G_inv_def counter_of_def shared_def split: option.splits)
  with NotStarted show ?thesis
    using G_inv_gens [OF assms, of "AtYield v" g]
    by (simp add: ref_next_def dict_getitem_def)
next
  case (AtYield c)
  then have "is_number c"
    using assms by (auto simp: G_inv_def)
  then have "G_inv (snd (dict_setitem (G_global s) ''counter'' c s))"
    by (rule G_inv_setitem [OF assms])
  then have "G_inv ((snd (dict_setitem (G_global s) ''counter'' c s))
                \<lparr>gens := (gens (snd (dict_setitem (G_global s) ''counter'' c s)))(g := Finished)\<rparr>)"
    by (rule G_inv_gens) simp
  with AtYield show ?thesis
    by (simp add: ref_next_def dict_setitem_def)
next
  case Finished
  with assms show ?thesis by (simp add: ref_next_def)
qed

lemma G_inv_ref_throw:
  assumes "G_inv s"
  shows "G_inv (snd (ref_throw e g s))"
  using G_inv_gens [OF assms, of Finished g] assms
  by (cases "gens s g") (simp_all add: ref_throw_def)

lemma G_inv_cm_enter:
  assumes "G_inv s"
  shows "G_inv (snd (cm_enter g s))"
proof (cases "ref_next g s")
  case (Pair out s1)
  then have "G_inv s1"
    using G_inv_ref_next [OF assms, of g] by simp
  with Pair show ?thesis
    by (cases out) (simp_all add: cm_enter_def)
qed

lemma G_inv_cm_exit:
  assumes "G_inv s"
  shows "G_inv (snd (cm_exit g exc s))"
proof (cases exc)
  case None
  obtain out s1 where n: "ref_next g s = (out, s1)" by (cases "ref_next g s")
  then have "G_inv s1"
    using G_inv_ref_next [OF assms, of g] by simp
  with None n show ?thesis
    by (cases out) (simp_all add: cm_exit_def)
next
  case (Some e)
  obtain out s1 where n: "ref_throw e g s = (out, s1)" by (cases "ref_throw e g s")
  then have "G_inv s1"
    using G_inv_ref_throw [OF assms, of e g] by simp
  with Some n show ?thesis
    by (cases out) (simp_all add: cm_exit_def split: exn.splits)
qed

text \<open>
  C7. The shared mapping of the cell has exactly the keys \<^verbatim>\<open>"user"\<close> and
  \<^verbatim>\<open>"counter"\<close> with a numeric counter, and \<^verbatim>\<open>Refs.__init__\<close>, \<^verbatim>\<open>__enter__\<close>,
  \<^verbatim>\<open>__exit__\<close>, \<^verbatim>\<open>acc\<close>, \<^verbatim>\<open>dec\<close> (on a handle of this mapping that remembers a
  number, as \<^verbatim>\<open>__init__\<close> makes them) and the generator's steps (creation, capture,
  restore, a thrown exception, and the context manager's enter and exit around them)
  keep it so, for every argument.
\<close>

theorem shared_mapping_invariant:
  "G_inv cell_state \<and>
   (G_inv s \<longrightarrow> (\<exists>r. Refs_init nm s = (Inr r, s) \<and> handle_ok r s)) \<and>
   (G_inv s \<longrightarrow> handle_ok r s \<longrightarrow>
      G_inv (snd (Refs_enter r s)) \<and> G_inv (snd (Refs_exit r args s)) \<and>
      G_inv (snd (Refs_acc r n s)) \<and> G_inv (snd (Refs_dec r n s))) \<and>
   (G_inv s \<longrightarrow>
      G_inv (snd (ref_call s)) \<and> G_inv (snd (ref_next g s)) \<and> G_inv (snd (ref_throw e g s)) \<and>
      G_inv (snd (cm_enter g s)) \<and> G_inv (snd (cm_exit g exc s)))"
proof -
  have "G_inv (snd (Refs_acc r n s)) \<and> G_inv (snd (Refs_dec r n s))"
    if "G_inv s" "handle_ok r s"
    using that G_inv_iadd [of s n] G_inv_isub [of s n]
    by (simp add: Refs_acc_def Refs_dec_def handle_ok_def)
  then show ?thesis
    by (simp add: G_inv_cell_state G_inv_Refs_init G_inv_Refs_exit G_inv_ref_call
        G_inv_ref_next G_inv_ref_throw G_inv_cm_enter G_inv_cm_exit Refs_enter_def)
qed

theorem shared_mapping_invariant_witness:
  "G_inv cell_state \<and> handle_ok ref1 cell_state \<and>
   G_inv (snd (Refs_exit ref1 [PNone, PNone, PNone] cell_state)) \<and>
   G_inv (snd (Refs_acc ref1 (PInt 2) cell_state)) \<and>
   G_inv (snd (Refs_dec ref1 (PInt 1) cell_state)) \<and>
   G_inv (snd (ref_next 0 cell_state))"
proof -
  have h: "handle_ok ref1 cell_state"
    by (simp add: handle_ok_def ref1_def cell_state_def is_number_def)
  show ?thesis
    using h shared_mapping_invariant [where s = cell_state and r = ref1
        and args = "[PNone, PNone, PNone]" and n = "PInt 2" and g = 0
        and nm = "PStr ''ref1''" and e = TypeError and exc = None]
      shared_mapping_invariant [where s = cell_state and r = ref1
        and args = "[PNone, PNone, PNone]" and n = "PInt 1" and g = 0
        and nm = "PStr ''ref1''" and e = TypeError and exc = None]
    by simp
qed

section \<open>Only the counter is written\<close>

lemma only_counter_written_iff:
  "only_counter_written s s' =
     (G_global s' = G_global s \<and> (\<forall>a k. k \<noteq> ''counter'' \<longrightarrow> dicts s' a k = dicts s a k))"
proof -
  have "(dicts s' a = (dicts s a)(''counter'' := dicts s' a ''counter'')) =
        (\<forall>k. k \<noteq> ''counter'' \<longrightarrow> dicts s' a k = dicts s a k)" for a
    by (auto simp: fun_eq_iff)
  then show ?thesis by (simp add: only_counter_written_def)
qed

lemma only_counter_written_refl: "only_counter_written s s"
  by (simp add: only_counter_written_iff)

lemma only_counter_written_user:
  "only_counter_written s s' \<Longrightarrow> shared s' ''user'' = shared s ''user''"
  by (simp add: only_counter_written_iff shared_def)

lemma frame_setitem: "only_counter_written s (snd (dict_setitem a ''counter'' v s))"
  by (simp add: only_counter_written_iff dict_setitem_def)

lemma frame_iadd: "only_counter_written s (snd (dict_iadd a ''counter'' n s))"
  by (simp add: dict_iadd_def dict_getitem_def only_counter_written_refl frame_setitem
      split: option.splits sum.splits)

lemma frame_isub: "only_counter_written s (snd (dict_isub a ''counter'' n s))"
  by (simp add: dict_isub_def dict_getitem_def only_counter_written_refl frame_setitem
      split: option.splits sum.splits)

lemma frame_Refs_init: "snd (Refs_init nm s) = s"
  by (simp add: Refs_init_result split: option.splits)

lemma frame_Refs_exit: "only_counter_written s (snd (Refs_exit r args s))"
  by (simp add: Refs_exit_result only_counter_written_iff)

lemma frame_ref_call: "only_counter_written s (snd (ref_call s))"
  by (simp add: ref_call_def only_counter_written_iff)

lemma frame_ref_next: "only_counter_written s (snd (ref_next g s))"
  by (cases "gens s g")
     (simp_all add: ref_next_def dict_getitem_def dict_setitem_def only_counter_written_iff
        split: option.splits)

lemma frame_ref_throw: "only_counter_written s (snd (ref_throw e g s))"
  by (cases "gens s g") (simp_all add: ref_throw_def only_counter_written_iff)

lemma frame_cm_enter: "only_counter_written s (snd (cm_enter g s))"
proof (cases "ref_next g s")
  case (Pair out s1)
  then have "only_counter_written s s1"
    using frame_ref_next [of s g] by simp
  with Pair show ?thesis
    by (cases out) (simp_all add: cm_enter_def)
qed

lemma frame_cm_exit: "only_counter_written s (snd (cm_exit g exc s))"
proof (cases exc)
  case None
  obtain out s1 where n: "ref_next g s = (out, s1)" by (cases "ref_next g s")
  then have "only_counter_written s s1"
    using frame_ref_next [of s g] by simp
  with None n show ?thesis
    by (cases out) (simp_all add: cm_exit_def)
next
  case (Some e)
  obtain out s1 where n: "ref_throw e g s = (out, s1)" by (cases "ref_throw e g s")
  then have "only_counter_written s s1"
    using frame_ref_throw [of s e g] by simp
  with Some n show ?thesis
    by (cases out) (simp_all add: cm_exit_def split: exn.splits)
qed

text \<open>
  C8. \<^verbatim>\<open>Refs.__init__\<close>, \<^verbatim>\<open>__enter__\<close>, \<^verbatim>\<open>__exit__\<close>, \<^verbatim>\<open>acc\<close>, \<^verbatim>\<open>dec\<close> and the
  generator's steps write no dictionary entry other than \<^verbatim>\<open>"counter"\<close> and rebind no
  name; in particular the \<^verbatim>\<open>"user"\<close> entry of the shared mapping is the same before and
  after, for every input.
\<close>

theorem only_counter_is_written:
  "only_counter_written s (snd (Refs_init nm s)) \<and>
   only_counter_written s (snd (Refs_enter r s)) \<and>
   only_counter_written s (snd (Refs_exit r args s)) \<and>
   only_counter_written s (snd (Refs_acc r n s)) \<and>
   only_counter_written s (snd (Refs_dec r n s)) \<and>
   only_counter_written s (snd (ref_call s)) \<and>
   only_counter_written s (snd (ref_next g s)) \<and>
   only_counter_written s (snd (ref_throw e g s)) \<and>
   only_counter_written s (snd (cm_enter g s)) \<and>
   only_counter_written s (snd (cm_exit g exc s)) \<and>
   shared (snd (Refs_init nm s)) ''user'' = shared s ''user'' \<and>
   shared (snd (Refs_enter r s)) ''user'' = shared s ''user'' \<and>
   shared (snd (Refs_exit r args s)) ''user'' = shared s ''user'' \<and>
   shared (snd (Refs_acc r n s)) ''user'' = shared s ''user'' \<and>
   shared (snd (Refs_dec r n s)) ''user'' = shared s ''user'' \<and>
   shared (snd (ref_next g s)) ''user'' = shared s ''user'' \<and>
   shared (snd (ref_throw e g s)) ''user'' = shared s ''user'' \<and>
   shared (snd (cm_enter g s)) ''user'' = shared s ''user'' \<and>
   shared (snd (cm_exit g exc s)) ''user'' = shared s ''user''"
  by (simp add: only_counter_written_user only_counter_written_refl frame_Refs_init
      frame_Refs_exit frame_iadd frame_isub frame_ref_call frame_ref_next frame_ref_throw
      frame_cm_enter frame_cm_exit Refs_enter_def Refs_acc_def Refs_dec_def)

section \<open>acc and dec\<close>

lemma py_eq_refl: "py_eq v v"
  by (cases v) (simp_all add: py_eq_def)

lemma same_counter_refl: "same_counter x x"
  by (cases x) (simp_all add: same_counter_def py_eq_refl)

lemma acc_dec_any:
  "same_counter (counter_at r (snd (block (exec_Refs r) [Add (PInt n), Sub (PInt n)] s))) (counter_at r s) \<and>
   same_counter (counter_at r (snd (block (exec_Refs r) [Sub (PInt n), Add (PInt n)] s))) (counter_at r s)"
proof (cases "counter_at r s")
  case None
  then show ?thesis
    by (simp add: counter_at_def Refs_acc_def Refs_dec_def dict_iadd_def dict_isub_def
      dict_getitem_def same_counter_def)
next
  case (Some v)
  then show ?thesis
    by (cases v)
       (simp_all add: counter_at_def Refs_acc_def Refs_dec_def dict_iadd_def dict_isub_def
          dict_getitem_def dict_setitem_def py_add_def py_sub_def same_counter_def py_eq_def)
qed

text \<open>
  C10. For every integer \<open>n\<close>: on an integer counter \<^verbatim>\<open>acc(n)\<close> followed by
  \<^verbatim>\<open>dec(n)\<close>, and \<^verbatim>\<open>dec(n)\<close> followed by \<^verbatim>\<open>acc(n)\<close>, both succeed and give back the
  very state they started in; and for every counter value whatsoever (also a missing
  one, where the first call raises and the sequence ends) the counter afterwards equals
  the counter before.
\<close>

theorem acc_dec_are_inverses:
  "(counter_at r s = Some (PInt c) \<longrightarrow>
      fst (Refs_acc r (PInt n) s) = Inr () \<and>
      Refs_dec r (PInt n) (snd (Refs_acc r (PInt n) s)) = (Inr (), s) \<and>
      fst (Refs_dec r (PInt n) s) = Inr () \<and>
      Refs_acc r (PInt n) (snd (Refs_dec r (PInt n) s)) = (Inr (), s)) \<and>
   same_counter (counter_at r (snd (block (exec_Refs r) [Add (PInt n), Sub (PInt n)] s))) (counter_at r s) \<and>
   same_counter (counter_at r (snd (block (exec_Refs r) [Sub (PInt n), Add (PInt n)] s))) (counter_at r s)"
proof -
  have "fst (Refs_acc r (PInt n) s) = Inr () \<and>
      Refs_dec r (PInt n) (snd (Refs_acc r (PInt n) s)) = (Inr (), s) \<and>
      fst (Refs_dec r (PInt n) s) = Inr () \<and>
      Refs_acc r (PInt n) (snd (Refs_dec r (PInt n) s)) = (Inr (), s)"
    if "counter_at r s = Some (PInt c)"
    using that
    by (simp add: counter_at_def Refs_acc_def Refs_dec_def dict_iadd_def dict_isub_def
      dict_getitem_def dict_setitem_def py_add_def py_sub_def map_upd_triv)
  then show ?thesis
    using acc_dec_any [of r n s] by simp
qed

theorem acc_dec_are_inverses_witness:
  "counter_at ref1 cell_state = Some (PInt 99) \<and>
   counter_at ref1 (snd (Refs_acc ref1 (PInt 5) cell_state)) = Some (PInt 104) \<and>
   Refs_dec ref1 (PInt 5) (snd (Refs_acc ref1 (PInt 5) cell_state)) = (Inr (), cell_state) \<and>
   counter_at ref1 (snd (Refs_dec ref1 (PInt 5) cell_state)) = Some (PInt 94) \<and>
   Refs_acc ref1 (PInt 5) (snd (Refs_dec ref1 (PInt 5) cell_state)) = (Inr (), cell_state)"
proof -
  note h = counter_at_ref1
  have "counter_at ref1 (snd (Refs_acc ref1 (PInt 5) cell_state)) = Some (PInt 104) \<and>
        counter_at ref1 (snd (Refs_dec ref1 (PInt 5) cell_state)) = Some (PInt 94)"
    by (simp add: Refs_acc_def Refs_dec_def dict_iadd_def dict_isub_def dict_getitem_def
        dict_setitem_def py_add_def py_sub_def counter_at_def ref1_def cell_state_def)
  then show ?thesis
    using h acc_dec_are_inverses [of ref1 cell_state 99 5] by simp
qed

section \<open>Restoration by the two guards\<close>

text \<open>A \<^verbatim>\<open>Refs\<close> scope restores the counter for every block, raising or not.\<close>

lemma with_Refs_scope_restores:
  "dicts (snd (with_stmt (Refs_init nm) Refs_enter Refs_exit body s)) (G_global s) ''counter'' =
   counter_of s"
proof (cases "counter_of s")
  case None
  then show ?thesis
    by (simp add: with_stmt_def Refs_init_result counter_of_def shared_def)
next
  case (Some c)
  then have "Refs_init nm s = (Inr \<lparr>self_name = nm, self_G = G_global s, self_init = c\<rparr>, s)"
    by (simp add: Refs_init_result)
  then show ?thesis
    using Some
    by (simp add: with_stmt_Refs [where expr = "Refs_init nm"] Refs_exit_result)
qed

text \<open>A block acts on the mapping alone: through a handle it is the block on the handle's
  mapping, and it neither reads nor writes a generator object.\<close>

lemma exec_Refs_is_exec_dict: "exec_Refs r x s = exec_dict (self_G r) x s"
  by (cases x) (simp_all add: Refs_acc_def Refs_dec_def)

lemma block_Refs_is_block_dict: "block (exec_Refs r) xs s = block (exec_dict (self_G r)) xs s"
  by (induction xs arbitrary: s)
     (simp_all add: exec_Refs_is_exec_dict split: prod.splits sum.splits)

lemma exec_dict_gens:
  "exec_dict m x (s\<lparr>gens := f, gen_alloc := a\<rparr>) =
     (fst (exec_dict m x s), (snd (exec_dict m x s))\<lparr>gens := f, gen_alloc := a\<rparr>)"
  by (cases x)
     (simp_all add: dict_iadd_def dict_isub_def dict_getitem_def dict_setitem_def
        split: option.splits sum.splits)

lemma block_dict_gens:
  "block (exec_dict m) xs (s\<lparr>gens := f, gen_alloc := a\<rparr>) =
     (fst (block (exec_dict m) xs s), (snd (block (exec_dict m) xs s))\<lparr>gens := f, gen_alloc := a\<rparr>)"
proof (induction xs arbitrary: s)
  case Nil
  then show ?case by simp
next
  case (Cons x xs)
  show ?case
  proof (cases "exec_dict m x s")
    case (Pair out s1)
    then show ?thesis
      by (cases out) (simp_all add: exec_dict_gens Cons.IH)
  qed
qed

lemma exec_dict_frame:
  "G_global (snd (exec_dict m x s)) = G_global s \<and> gens (snd (exec_dict m x s)) = gens s \<and>
   gen_alloc (snd (exec_dict m x s)) = gen_alloc s"
  by (cases x)
     (simp_all add: dict_iadd_def dict_isub_def dict_getitem_def dict_setitem_def
        split: option.splits sum.splits)

lemma block_dict_frame:
  "G_global (snd (block (exec_dict m) xs s)) = G_global s \<and>
   gens (snd (block (exec_dict m) xs s)) = gens s \<and>
   gen_alloc (snd (block (exec_dict m) xs s)) = gen_alloc s"
proof (induction xs arbitrary: s)
  case Nil
  then show ?case by simp
next
  case (Cons x xs)
  show ?case
  proof (cases "exec_dict m x s")
    case (Pair out s1)
    then show ?thesis
      using exec_dict_frame [of m x s] Cons.IH [of s1]
      by (cases out) simp_all
  qed
qed

text \<open>Both scoped forms in terms of the block alone. The \<^verbatim>\<open>ref\<close> scope writes the
  counter back only in the branch where the block completed.\<close>

lemma with_ref_block_result:
  assumes "counter_of s = Some c"
  shows "with_ref_block xs s =
     (case block (exec_dict (G_global s)) xs s of
        (Inl e, s3) \<Rightarrow>
          (Inl e, s3\<lparr>gens := (gens s)(gen_alloc s := Finished), gen_alloc := Suc (gen_alloc s)\<rparr>)
      | (Inr u, s3) \<Rightarrow>
          (Inr (), s3\<lparr>dicts := (dicts s3)(G_global s := (dicts s3 (G_global s))(''counter'' \<mapsto> c)),
                      gens := (gens s)(gen_alloc s := Finished), gen_alloc := Suc (gen_alloc s)\<rparr>))"
proof -
  let ?g = "gen_alloc s"
  let ?s2 = "s\<lparr>gens := (gens s)(?g := AtYield c), gen_alloc := Suc ?g\<rparr>"
  have enter: "cm_enter ?g (snd (ref_call s)) = (Inr (G_global s), ?s2)"
    using assms
    by (simp add: cm_enter_def ref_call_def ref_next_def dict_getitem_def counter_of_def shared_def)
  obtain out s3 where b: "block (exec_dict (G_global s)) xs s = (out, s3)"
    by (cases "block (exec_dict (G_global s)) xs s")
  have b2: "block (exec_dict (G_global s)) xs ?s2 =
              (out, s3\<lparr>gens := (gens s)(?g := AtYield c), gen_alloc := Suc ?g\<rparr>)"
    using b by (simp add: block_dict_gens)
  have fr: "G_global s3 = G_global s"
    using block_dict_frame [of "G_global s" xs s] b by simp
  show ?thesis
  proof (cases out)
    case (Inl e)
    then show ?thesis
      using enter b b2
      by (simp add: with_ref_block_def with_stmt_def ref_call_def cm_exit_def ref_throw_def
          split: exn.splits)
  next
    case (Inr u)
    then show ?thesis
      using enter b b2 fr
      by (simp add: with_ref_block_def with_stmt_def ref_call_def cm_exit_def ref_next_def
          dict_setitem_def)
  qed
qed

lemma with_Refs_block_result:
  assumes "counter_of s = Some c"
  shows "with_Refs_block nm xs s =
     (case block (exec_dict (G_global s)) xs s of
        (out, s3) \<Rightarrow>
          (out, s3\<lparr>dicts := (dicts s3)(G_global s := (dicts s3 (G_global s))(''counter'' \<mapsto> c))\<rparr>))"
proof -
  have "Refs_init nm s = (Inr \<lparr>self_name = nm, self_G = G_global s, self_init = c\<rparr>, s)"
    using assms by (simp add: Refs_init_result)
  then show ?thesis
    by (simp add: with_Refs_block_def with_stmt_Refs [where expr = "Refs_init nm"]
        block_Refs_is_block_dict Refs_exit_result split: prod.splits)
qed

lemma with_ref_scope_restores_on_normal_exit:
  assumes "fst (with_ref_block xs s) = Inr ()"
  shows "counter_of (snd (with_ref_block xs s)) = counter_of s"
proof (cases "counter_of s")
  case None
  then have "fst (with_ref_block xs s) = Inl (KeyError ''counter'')"
    by (simp add: with_ref_block_def with_stmt_def ref_call_def cm_enter_def ref_next_def
        dict_getitem_def counter_of_def shared_def)
  with assms show ?thesis by simp
next
  case (Some c)
  obtain out s3 where b: "block (exec_dict (G_global s)) xs s = (out, s3)"
    by (cases "block (exec_dict (G_global s)) xs s")
  have fr: "G_global s3 = G_global s"
    using block_dict_frame [of "G_global s" xs s] b by simp
  show ?thesis
    using assms Some b fr
    by (cases out) (simp_all add: with_ref_block_result [OF Some] counter_of_def shared_def)
qed

lemma with_ref_scope_keeps_block_state_on_raise:
  assumes "counter_of s = Some c" and "fst (block (exec_dict (G_global s)) xs s) = Inl e"
  shows "fst (with_ref_block xs s) = Inl e \<and>
         counter_of (snd (with_ref_block xs s)) = counter_of (snd (block (exec_dict (G_global s)) xs s))"
proof -
  obtain out s3 where b: "block (exec_dict (G_global s)) xs s = (out, s3)"
    by (cases "block (exec_dict (G_global s)) xs s")
  show ?thesis
    using assms b
    by (simp add: with_ref_block_result [OF assms(1)] counter_of_def shared_def)
qed

lemma guards_same_outcome:
  "fst (with_ref_block xs s) = fst (with_Refs_block nm xs s)"
proof (cases "counter_of s")
  case None
  then show ?thesis
    by (simp add: with_ref_block_def with_Refs_block_def with_stmt_def ref_call_def cm_enter_def
        ref_next_def dict_getitem_def counter_of_def shared_def Refs_init_def)
next
  case (Some c)
  show ?thesis
    by (simp add: with_ref_block_result [OF Some] with_Refs_block_result [OF Some]
        split: prod.splits sum.splits)
qed

lemma guards_agree_on_normal_exit:
  assumes "fst (with_Refs_block nm xs s) = Inr ()"
  shows "dicts (snd (with_ref_block xs s)) = dicts (snd (with_Refs_block nm xs s)) \<and>
         G_global (snd (with_ref_block xs s)) = G_global (snd (with_Refs_block nm xs s))"
proof (cases "counter_of s")
  case None
  then have "fst (with_Refs_block nm xs s) = Inl (KeyError ''counter'')"
    by (simp add: with_Refs_block_def with_stmt_def Refs_init_result)
  with assms show ?thesis by simp
next
  case (Some c)
  show ?thesis
    using assms
    by (simp add: with_ref_block_result [OF Some] with_Refs_block_result [OF Some]
        split: prod.splits sum.splits)
qed

text \<open>
  C1. The claim holds for \<^verbatim>\<open>Refs\<close> scopes and for \<^verbatim>\<open>ref()\<close> scopes whose block
  completes (lemmas above), and fails for a \<^verbatim>\<open>ref()\<close> scope whose block raises: from
  counter 99 the block \<^verbatim>\<open>m["counter"] -= 1; raise Exception("boom")\<close> leaves the
  \<^verbatim>\<open>with ref() as m\<close> statement with the exception and the counter 98, where the
  \<^verbatim>\<open>Refs\<close> scope around the same block leaves 99.
\<close>

theorem with_ref_not_restored_when_block_raises:
  "counter_of cell_state = Some (PInt 99) \<and>
   fst (with_ref_block [Sub (PInt 1), Raise (Exception ''boom'')] cell_state) = Inl (Exception ''boom'') \<and>
   counter_of (snd (with_ref_block [Sub (PInt 1), Raise (Exception ''boom'')] cell_state)) = Some (PInt 98) \<and>
   counter_of (snd (with_Refs_block (PStr ''ref1'') [Sub (PInt 1), Raise (Exception ''boom'')] cell_state)) = Some (PInt 99)"
proof -
  have c: "counter_of cell_state = Some (PInt 99)"
    by (simp add: counter_of_def shared_def cell_state_def)
  have b: "block (exec_dict (G_global cell_state)) [Sub (PInt 1), Raise (Exception ''boom'')] cell_state =
        (Inl (Exception ''boom''),
         cell_state\<lparr>dicts := (dicts cell_state)(0 := (dicts cell_state 0)(''counter'' \<mapsto> PInt 98))\<rparr>)"
    by (simp add: cell_state_def dict_isub_def dict_getitem_def dict_setitem_def py_sub_def)
  show ?thesis
    using c b
    by (simp add: with_ref_block_result [OF c] with_Refs_block_result [OF c] counter_of_def shared_def)
       (simp add: cell_state_def)
qed

text \<open>
  C5. The two guards raise or complete alike and agree on the mapping when the block
  completes (lemmas above), but not when it raises: from counter 99 the block
  \<^verbatim>\<open>-= 1; += "a"\<close> raises \<^verbatim>\<open>TypeError\<close> under both, and the \<^verbatim>\<open>Refs\<close> scope leaves
  the counter 99 while the \<^verbatim>\<open>ref()\<close> scope leaves 98.
\<close>

theorem guards_differ_when_block_raises:
  "fst (with_Refs_block (PStr ''ref1'') [Sub (PInt 1), Add (PStr ''a'')] cell_state) = Inl TypeError \<and>
   fst (with_ref_block [Sub (PInt 1), Add (PStr ''a'')] cell_state) = Inl TypeError \<and>
   counter_of (snd (with_Refs_block (PStr ''ref1'') [Sub (PInt 1), Add (PStr ''a'')] cell_state)) = Some (PInt 99) \<and>
   counter_of (snd (with_ref_block [Sub (PInt 1), Add (PStr ''a'')] cell_state)) = Some (PInt 98)"
proof -
  have c: "counter_of cell_state = Some (PInt 99)"
    by (simp add: counter_of_def shared_def cell_state_def)
  have b: "block (exec_dict (G_global cell_state)) [Sub (PInt 1), Add (PStr ''a'')] cell_state =
        (Inl TypeError,
         cell_state\<lparr>dicts := (dicts cell_state)(0 := (dicts cell_state 0)(''counter'' \<mapsto> PInt 98))\<rparr>)"
    by (simp add: cell_state_def dict_isub_def dict_iadd_def dict_getitem_def dict_setitem_def
        py_sub_def py_add_def)
  show ?thesis
    using c b
    by (simp add: with_ref_block_result [OF c] with_Refs_block_result [OF c] counter_of_def shared_def)
       (simp add: cell_state_def)
qed

end
